theory Spec2Isabelle
  imports Main "HOL-Library.Word"
begin

unbundle bit_operations_syntax

section \<open>Bytes and integers\<close>

text \<open>
  A Python \<open>bytes\<close> object is a list of 8-bit words; Python integers are unbounded
  and are modelled by \<open>int\<close>.  Indexing a \<open>bytes\<close> object yields an integer, a slice
  yields a \<open>bytes\<close> object and never fails.
\<close>

type_synonym byte = "8 word"
type_synonym bytes = "byte list"

datatype error =
    UnknownCardSeries
  | IndexError
  | TypeError
  | ValueError
  | OverflowError
  | Timeout
  | InvalidCommand
  | InvalidStartByte
  | NoETX
  | CRCFailed
  | UnexpectedCommand
  | BufferNotEmpty
  | StructError
  | WrongProtocol

text \<open>The slice \<open>s[i:j]\<close> for non-negative bounds.\<close>

definition slice :: "'a list \<Rightarrow> nat \<Rightarrow> nat \<Rightarrow> 'a list" where
  "slice s i j = take (j - i) (drop i s)"

text \<open>The index expression \<open>s[i]\<close> for a non-negative index; out of range raises.\<close>

definition index :: "'a list \<Rightarrow> nat \<Rightarrow> error + 'a" where
  "index s i = (if i < length s then Inr (s ! i) else Inl IndexError)"

text \<open>
  \<open>SIReader._to_int\<close>: the loop over \<open>enumerate(iterbytes(s[::-1]))\<close> that adds
  \<open>c << offset * 8\<close> to the running value.
\<close>

fun to_int_loop :: "(nat \<times> byte) list \<Rightarrow> int \<Rightarrow> int" where
  "to_int_loop [] v = v"
| "to_int_loop ((offset, c) # rest) v = to_int_loop rest (v + push_bit (offset * 8) (uint c))"

definition to_int :: "bytes \<Rightarrow> int" where
  "to_int s = to_int_loop (enumerate 0 (rev s)) 0"

text \<open>
  \<open>SIReader._to_str\<close> on Python 3 is \<open>i.to_bytes(len, "big")\<close>, which raises
  \<open>OverflowError\<close> when \<open>i\<close> is negative or does not fit.
\<close>

fun to_bytes_big :: "int \<Rightarrow> nat \<Rightarrow> bytes" where
  "to_bytes_big i 0 = []"
| "to_bytes_big i (Suc n) = to_bytes_big (i div 256) n @ [word_of_int (i mod 256)]"

definition to_str :: "int \<Rightarrow> nat \<Rightarrow> error + bytes" where
  "to_str i len = (if 0 \<le> i \<and> i < 256 ^ len then Inr (to_bytes_big i len) else Inl OverflowError)"

section \<open>CRC\<close>

definition CRC_POLYNOM :: int where "CRC_POLYNOM = 0x8005"
definition CRC_BITF :: int where "CRC_BITF = 0x8000"

text \<open>The generator \<open>twochars\<close> nested in \<open>_crc\<close>: the chunks \<open>s[i:i+2]\<close> of the padded string.\<close>

fun chunks2 :: "bytes \<Rightarrow> bytes list" where
  "chunks2 (a # b # rest) = [a, b] # chunks2 rest"
| "chunks2 [a] = [[a]]"
| "chunks2 [] = []"

definition twochars :: "bytes \<Rightarrow> bytes list" where
  "twochars s =
     (if length s = 0 then []
      else chunks2 (if length s mod 2 = 0 then s @ [0, 0] else s @ [0]))"

text \<open>One pass of the body of \<open>for j in range(16)\<close> on the pair \<open>(crc, val)\<close>.\<close>

fun crc_bit :: "int \<times> int \<Rightarrow> int \<times> int" where
  "crc_bit (crc, val) =
     (if crc AND CRC_BITF \<noteq> 0
      then (let c = push_bit 1 crc;
                c = (if val AND CRC_BITF \<noteq> 0 then c + 1 else c)
            in (c XOR CRC_POLYNOM, push_bit 1 val))
      else (let c = push_bit 1 crc;
                c = (if val AND CRC_BITF \<noteq> 0 then c + 1 else c)
            in (c, push_bit 1 val)))"

definition crc_word :: "int \<Rightarrow> bytes \<Rightarrow> int" where
  "crc_word crc c = fst ((crc_bit ^^ 16) (crc, to_int c))"

text \<open>
  \<open>SIReader._crc\<close>.  The final value is masked to 16 bits, so both arguments of
  \<open>int2byte\<close> are below 256 and the conversion to a byte cannot fail.
\<close>

definition crc :: "bytes \<Rightarrow> bytes" where
  "crc s =
     (if length s < 1 then [0, 0]
      else (let c0 = to_int (slice s 0 2);
                c1 = foldl crc_word c0 (twochars (drop 2 s));
                c2 = c1 AND 0xFFFF
            in [word_of_int (drop_bit 8 c2), word_of_int (c2 AND 0xFF)]))"

definition crc_check :: "bytes \<Rightarrow> bytes \<Rightarrow> bool" where
  "crc_check s c = (crc s = c)"

section \<open>Card numbers\<close>

text \<open>\<open>SIReader._decode_cardnr\<close>; \<open>number[1]\<close> raises \<open>IndexError\<close> on a short input.\<close>

definition decode_cardnr :: "bytes \<Rightarrow> error + int" where
  "decode_cardnr number =
     (if slice number 0 1 \<noteq> [0] then Inl UnknownCardSeries
      else (let nr = to_int (slice number 1 4) in
        if nr < 500000 then
          (let ret = to_int (slice number 2 4) in
           case index number 1 of
             Inl e \<Rightarrow> Inl e
           | Inr series \<Rightarrow>
               if uint series < 2 then Inr ret
               else Inr (uint series * 100000 + ret))
        else Inr nr))"

section \<open>Frame codec\<close>

definition STX :: bytes where "STX = [0x02]"
definition ETX :: bytes where "ETX = [0x03]"
definition NAK :: bytes where "NAK = [0x15]"
definition WAKEUP :: bytes where "WAKEUP = [0xFF]"

text \<open>
  The part of the session object that the frame codec touches: the bytes that arrive
  on the serial line before the read timeout expires, the bytes written so far, and the
  cached station code (\<open>None\<close> until the first response).
\<close>

record reader =
  inbuf :: bytes
  outbuf :: bytes
  station_code :: "int option"

text \<open>
  \<open>Serial.read(size)\<close> of pyserial returns the bytes that arrived before the timeout,
  at most \<open>size\<close> of them, and the empty string when \<open>size\<close> is not positive.
\<close>

definition serial_read :: "int \<Rightarrow> reader \<Rightarrow> bytes \<times> reader" where
  "serial_read n r = (take (nat n) (inbuf r), r\<lparr>inbuf := drop (nat n) (inbuf r)\<rparr>)"

text \<open>\<open>compat.byte2int\<close> on a \<open>bytes\<close> object is \<open>x[0]\<close>.\<close>

definition byte2int :: "bytes \<Rightarrow> error + int" where
  "byte2int x = (case x of [] \<Rightarrow> Inl IndexError | b # _ \<Rightarrow> Inr (uint b))"

text \<open>\<open>six.int2byte\<close> packs one unsigned byte and raises outside 0..255.\<close>

definition int2byte :: "int \<Rightarrow> error + bytes" where
  "int2byte i = (if 0 \<le> i \<and> i \<le> 255 then Inr [word_of_int i] else Inl StructError)"

text \<open>
  \<open>SIReader._read_command\<close>.  The result pairs the outcome with the session state, so
  that the state reached when an exception is raised is part of the model.
\<close>

definition read_command :: "reader \<Rightarrow> (error + bytes \<times> bytes) \<times> reader" where
  "read_command r0 =
     (let (char, r1) = serial_read 1 r0;
          (char, r2) = (if char = WAKEUP then serial_read 1 r1 else (char, r1))
      in if char = [] then (Inl Timeout, r2)
         else if char = NAK then (Inl InvalidCommand, r2)
         else if char \<noteq> STX then (Inl InvalidStartByte, r2\<lparr>inbuf := []\<rparr>)
         else
           (let (cmd, r3) = serial_read 1 r2;
                (len_byte, r4) = serial_read 1 r3;
                (station, r5) = serial_read 2 r4;
                r6 = r5\<lparr>station_code := Some (to_int station)\<rparr>
            in case byte2int len_byte of
                 Inl e \<Rightarrow> (Inl e, r6)
               | Inr len \<Rightarrow>
                   (let (data, r7) = serial_read (len - 2) r6;
                        (crc_bytes, r8) = serial_read 2 r7;
                        (etx, r9) = serial_read 1 r8
                    in if etx \<noteq> ETX then (Inl NoETX, r9)
                       else if \<not> crc_check (cmd @ len_byte @ station @ data) crc_bytes
                            then (Inl CRCFailed, r9)
                       else (Inr (cmd, data), r9))))"

text \<open>
  The frame \<open>_send_command\<close> assembles and writes; \<open>skipwakeup\<close> suppresses the
  wake-up byte.
\<close>

definition encode_command :: "bytes \<Rightarrow> bytes \<Rightarrow> bool \<Rightarrow> error + bytes" where
  "encode_command command parameters skipwakeup =
     (case int2byte (int (length parameters)) of
        Inl e \<Rightarrow> Inl e
      | Inr len \<Rightarrow>
          (let command_string = command @ len @ parameters;
               cmd = STX @ command_string @ crc command_string @ ETX
           in Inr (if \<not> skipwakeup then WAKEUP @ cmd else cmd)))"

text \<open>
  \<open>SIReader._send_command\<close>.  The station is the environment: \<open>respond\<close> gives the
  bytes it puts on the line after it has received the written frame.
\<close>

definition send_command ::
  "(bytes \<Rightarrow> bytes) \<Rightarrow> bytes \<Rightarrow> bytes \<Rightarrow> bool \<Rightarrow> reader \<Rightarrow> (error + bytes \<times> bytes) \<times> reader" where
  "send_command respond command parameters skipwakeup r =
     (if length (inbuf r) \<noteq> 0 then (Inl BufferNotEmpty, r)
      else case encode_command command parameters skipwakeup of
             Inl e \<Rightarrow> (Inl e, r)
           | Inr cmd \<Rightarrow>
               read_command (r\<lparr>outbuf := outbuf r @ cmd, inbuf := respond cmd\<rparr>))"

section \<open>Dates and times of the Python runtime\<close>

text \<open>
  A naive \<open>datetime\<close> object holds the seven fields below; the functions follow the
  pure-Python implementation in the standard library.  A \<open>timedelta\<close> is represented
  by the number of microseconds it stands for (its normal form of days, seconds and
  microseconds is unique, and comparison and arithmetic agree with this number); the
  magnitude limit of \<open>timedelta\<close> lies far beyond every value built here.
\<close>

record datetime =
  dt_year :: int
  dt_month :: int
  dt_day :: int
  dt_hour :: int
  dt_minute :: int
  dt_second :: int
  dt_microsecond :: int

type_synonym timedelta = int

definition timedelta :: "int \<Rightarrow> int \<Rightarrow> int \<Rightarrow> timedelta" where
  "timedelta days seconds microseconds = (days * 86400 + seconds) * 1000000 + microseconds"

definition DAYS_IN_MONTH :: "int list" where
  "DAYS_IN_MONTH = [-1, 31, 28, 31, 30, 31, 30, 31, 31, 30, 31, 30, 31]"

definition DAYS_BEFORE_MONTH :: "int list" where
  "DAYS_BEFORE_MONTH = [-1, 0, 31, 59, 90, 120, 151, 181, 212, 243, 273, 304, 334]"

definition MINYEAR :: int where "MINYEAR = 1"
definition MAXYEAR :: int where "MAXYEAR = 9999"
definition MAXORDINAL :: int where "MAXORDINAL = 3652059"

definition is_leap :: "int \<Rightarrow> bool" where
  "is_leap y = (y mod 4 = 0 \<and> (y mod 100 \<noteq> 0 \<or> y mod 400 = 0))"

definition days_before_year :: "int \<Rightarrow> int" where
  "days_before_year y0 = (let y = y0 - 1 in y * 365 + y div 4 - y div 100 + y div 400)"

definition days_in_month :: "int \<Rightarrow> int \<Rightarrow> int" where
  "days_in_month y m = (if m = 2 \<and> is_leap y then 29 else DAYS_IN_MONTH ! nat m)"

definition days_before_month :: "int \<Rightarrow> int \<Rightarrow> int" where
  "days_before_month y m = DAYS_BEFORE_MONTH ! nat m + (if m > 2 \<and> is_leap y then 1 else 0)"

definition ymd2ord :: "int \<Rightarrow> int \<Rightarrow> int \<Rightarrow> int" where
  "ymd2ord y m d = days_before_year y + days_before_month y m + d"

definition ord2ymd :: "int \<Rightarrow> int \<times> int \<times> int" where
  "ord2ymd n0 =
     (let n = n0 - 1;
          n400 = n div 146097; n = n mod 146097;
          y = n400 * 400 + 1;
          n100 = n div 36524; n = n mod 36524;
          n4 = n div 1461; n = n mod 1461;
          n1 = n div 365; n = n mod 365;
          y = y + (n100 * 100 + n4 * 4 + n1)
      in if n1 = 4 \<or> n100 = 4 then (y - 1, 12, 31)
         else
           (let leapyear = (n1 = 3 \<and> (n4 \<noteq> 24 \<or> n100 = 3));
                m = (n + 50) div 32;
                preceding = DAYS_BEFORE_MONTH ! nat m + (if m > 2 \<and> leapyear then 1 else 0)
            in if preceding > n
               then (let m = m - 1;
                         preceding = preceding - (DAYS_IN_MONTH ! nat m + (if m = 2 \<and> leapyear then 1 else 0))
                     in (y, m, n - preceding + 1))
               else (y, m, n - preceding + 1)))"

text \<open>The checks of the constructor: a field out of range raises \<open>ValueError\<close>.\<close>

definition check_date_fields :: "int \<Rightarrow> int \<Rightarrow> int \<Rightarrow> bool" where
  "check_date_fields y m d =
     (MINYEAR \<le> y \<and> y \<le> MAXYEAR \<and> 1 \<le> m \<and> m \<le> 12 \<and> 1 \<le> d \<and> d \<le> days_in_month y m)"

definition check_time_fields :: "int \<Rightarrow> int \<Rightarrow> int \<Rightarrow> int \<Rightarrow> bool" where
  "check_time_fields h mi s us =
     (0 \<le> h \<and> h \<le> 23 \<and> 0 \<le> mi \<and> mi \<le> 59 \<and> 0 \<le> s \<and> s \<le> 59 \<and> 0 \<le> us \<and> us \<le> 999999)"

definition datetime_new :: "int \<Rightarrow> int \<Rightarrow> int \<Rightarrow> int \<Rightarrow> int \<Rightarrow> int \<Rightarrow> int \<Rightarrow> error + datetime" where
  "datetime_new y m d h mi s us =
     (if check_date_fields y m d \<and> check_time_fields h mi s us
      then Inr \<lparr>dt_year = y, dt_month = m, dt_day = d, dt_hour = h, dt_minute = mi,
                dt_second = s, dt_microsecond = us\<rparr>
      else Inl ValueError)"

text \<open>The class invariant of a \<open>datetime\<close> object.\<close>

definition valid_datetime :: "datetime \<Rightarrow> bool" where
  "valid_datetime t =
     (check_date_fields (dt_year t) (dt_month t) (dt_day t)
      \<and> check_time_fields (dt_hour t) (dt_minute t) (dt_second t) (dt_microsecond t))"

definition toordinal :: "datetime \<Rightarrow> int" where
  "toordinal t = ymd2ord (dt_year t) (dt_month t) (dt_day t)"

definition weekday :: "datetime \<Rightarrow> int" where
  "weekday t = (toordinal t + 6) mod 7"

definition isoweekday :: "datetime \<Rightarrow> int" where
  "isoweekday t = (if toordinal t mod 7 = 0 then 7 else toordinal t mod 7)"

text \<open>
  The \<open>timedelta\<close> that \<open>__add__\<close> and \<open>__sub__\<close> build from a \<open>datetime\<close>: its ordinal as
  days plus its time of day.
\<close>

definition dt_delta :: "datetime \<Rightarrow> timedelta" where
  "dt_delta t =
     timedelta (toordinal t) (dt_hour t * 3600 + dt_minute t * 60 + dt_second t) (dt_microsecond t)"

text \<open>\<open>datetime.__add__\<close> with a \<open>timedelta\<close>; \<open>datetime - timedelta\<close> adds the negation.\<close>

definition dt_add :: "datetime \<Rightarrow> timedelta \<Rightarrow> error + datetime" where
  "dt_add t other =
     (let delta = dt_delta t + other;
          days = delta div 86400000000;
          seconds = (delta mod 86400000000) div 1000000;
          us = delta mod 1000000;
          h = seconds div 3600; rem = seconds mod 3600;
          mi = rem div 60; s = rem mod 60
      in if 0 < days \<and> days \<le> MAXORDINAL
         then (let (y, m, d) = ord2ymd days
               in Inr \<lparr>dt_year = y, dt_month = m, dt_day = d, dt_hour = h, dt_minute = mi,
                        dt_second = s, dt_microsecond = us\<rparr>)
         else Inl OverflowError)"

text \<open>\<open>datetime - datetime\<close>.\<close>

definition dt_diff :: "datetime \<Rightarrow> datetime \<Rightarrow> timedelta" where
  "dt_diff a b = dt_delta a - dt_delta b"

text \<open>Comparison of naive \<open>datetime\<close> objects compares the tuples of their fields.\<close>

fun tuple_lt :: "int list \<Rightarrow> int list \<Rightarrow> bool" where
  "tuple_lt (x # xs) (y # ys) = (x < y \<or> (x = y \<and> tuple_lt xs ys))"
| "tuple_lt [] (y # ys) = True"
| "tuple_lt xs [] = False"

definition dt_tuple :: "datetime \<Rightarrow> int list" where
  "dt_tuple t = [dt_year t, dt_month t, dt_day t, dt_hour t, dt_minute t, dt_second t,
                 dt_microsecond t]"

definition dt_cmp :: "datetime \<Rightarrow> datetime \<Rightarrow> int" where
  "dt_cmp a b = (if dt_tuple a = dt_tuple b then 0
                 else if tuple_lt (dt_tuple b) (dt_tuple a) then 1 else -1)"

definition dt_le :: "datetime \<Rightarrow> datetime \<Rightarrow> bool" where
  "dt_le a b = (dt_cmp a b \<le> 0)"

definition dt_lt :: "datetime \<Rightarrow> datetime \<Rightarrow> bool" where
  "dt_lt a b = (dt_cmp a b < 0)"

text \<open>\<open>t.replace(hour=0, minute=0, second=0, microsecond=0)\<close>.\<close>

definition midnight :: "datetime \<Rightarrow> datetime" where
  "midnight t = t\<lparr>dt_hour := 0, dt_minute := 0, dt_second := 0, dt_microsecond := 0\<rparr>"

text \<open>
  The built-in \<open>round\<close> on the quotient \<open>n / d\<close> for a positive \<open>d\<close>: to the nearest
  integer, a tie to the even one.  The source computes the quotients it rounds in
  double precision; they are \<open>b * 10^6 / 256\<close> for a byte \<open>b\<close>, which is a multiple of
  1/4 below 10^6 and exact in double precision, and \<open>us / 10^6 * 256\<close> for a
  microsecond count, whose exact value is never closer than 1/31250 to a tie, far more
  than the error of the division.
\<close>

definition py_round :: "int \<Rightarrow> int \<Rightarrow> int" where
  "py_round n d =
     (let q = n div d; r = n mod d
      in if 2 * r < d then q
         else if 2 * r > d then q + 1
         else if even q then q else q + 1)"

text \<open>Sequencing of computations that may raise.\<close>

definition and_then :: "error + 'a \<Rightarrow> ('a \<Rightarrow> error + 'b) \<Rightarrow> error + 'b" where
  "and_then x f = (case x of Inl e \<Rightarrow> Inl e | Inr v \<Rightarrow> f v)"

section \<open>Time of day of a punch\<close>

definition TIME_RESET :: bytes where "TIME_RESET = [0xEE, 0xEE]"

text \<open>The weekday expression \<open>dow\<close> of \<open>_decode_time\<close>: \<open>(((ptd & 0b00001110) >> 1) - 1) % 7\<close>.\<close>

definition ptd_weekday :: "byte \<Rightarrow> int" where
  "ptd_weekday ptd = (drop_bit 1 (uint ptd AND 14) - 1) mod 7"

text \<open>
  \<open>SIReader._decode_time\<close>.  \<open>now\<close> is the reading of the host clock that
  \<open>datetime.now()\<close> returns; \<open>raw_ptd\<close> is an element of a \<open>bytes\<close> object, hence an
  integer between 0 and 255, or absent.  The result \<open>Inr None\<close> is the return value
  \<open>None\<close>.
\<close>

definition decode_time ::
  "datetime \<Rightarrow> bytes \<Rightarrow> byte option \<Rightarrow> datetime option \<Rightarrow> error + datetime option" where
  "decode_time now raw_time raw_ptd reftime0 =
     (if raw_time = TIME_RESET then Inr None
      else
        and_then (case reftime0 of None \<Rightarrow> dt_add now (timedelta 0 (2 * 3600) 0)
                                 | Some r \<Rightarrow> Inr r) (\<lambda>reftime.
        let punchtime = timedelta 0 (to_int raw_time) 0 in
        case raw_ptd of
          Some p \<Rightarrow>
            (let ptd = uint p;
                 punchtime = (if ptd AND 1 = 1 then punchtime + timedelta 0 (12 * 3600) 0
                              else punchtime);
                 dow = ptd_weekday p
             in and_then
                  (if weekday reftime = dow
                      \<and> punchtime > timedelta 0 (dt_hour reftime * 3600 + dt_minute reftime * 60
                                                   + dt_second reftime) 0
                   then dt_add reftime (- timedelta 7 0 0)
                   else dt_add reftime (- timedelta ((weekday reftime - dow) mod 7) 0 0))
                  (\<lambda>reftime. let ref_day = midnight reftime
                             in and_then (dt_add ref_day punchtime) (\<lambda>t. Inr (Some t))))
        | None \<Rightarrow>
            (let ref_day = midnight reftime;
                 ref_hour = dt_diff reftime ref_day;
                 t_noon = timedelta 0 (12 * 3600) 0
             in if ref_hour < t_noon then
                  (if punchtime < ref_hour
                   then and_then (dt_add ref_day punchtime) (\<lambda>t. Inr (Some t))
                   else and_then (dt_add ref_day (- t_noon))
                          (\<lambda>d. and_then (dt_add d punchtime) (\<lambda>t. Inr (Some t))))
                else
                  (if punchtime < ref_hour - t_noon
                   then and_then (dt_add ref_day t_noon)
                          (\<lambda>d. and_then (dt_add d punchtime) (\<lambda>t. Inr (Some t)))
                   else and_then (dt_add ref_day punchtime) (\<lambda>t. Inr (Some t))))))"

section \<open>Backup memory reader\<close>

definition BUX_FIRST :: nat where "BUX_FIRST = 2"
definition BUX_SIZE :: nat where "BUX_SIZE = 8"
definition BUX_CN :: nat where "BUX_CN = 0"
definition BUX_YM :: nat where "BUX_YM = 3"
definition BUX_MDAP :: nat where "BUX_MDAP = 4"
definition BUX_SECS :: nat where "BUX_SECS = 5"
definition BUX_MS :: nat where "BUX_MS = 7"

definition BUL_FIRST :: nat where "BUL_FIRST = 2"
definition BUL_SIZE :: nat where "BUL_SIZE = 6"
definition BUL_CN :: nat where "BUL_CN = 0"
definition BUL_SECS :: nat where "BUL_SECS = 2"
definition BUL_PTD :: nat where "BUL_PTD = 4"
definition BUL_CNS :: nat where "BUL_CNS = 5"

text \<open>The result of \<open>"%X" % i\<close> for \<open>i\<close> between 0 and 15.\<close>

definition hex_digit :: "int \<Rightarrow> string" where
  "hex_digit i = [''0123456789ABCDEF'' ! nat i]"

text \<open>An element of the list \<open>read_backup\<close> returns: \<open>(punch_datetime, cardnr, err)\<close>.\<close>

type_synonym backup_punch = "datetime \<times> int \<times> string"

text \<open>
  The body of the loop over the punch data in \<open>read_backup\<close>, extended protocol;
  \<open>punch\<close> is the slice \<open>bakmem[ii : ii + step]\<close>.
\<close>

definition decode_bux :: "bytes \<Rightarrow> error + backup_punch" where
  "decode_bux punch =
     and_then (decode_cardnr ([0x00] @ slice punch BUX_CN (BUX_CN + 3))) (\<lambda>cardnr.
     and_then (index punch BUX_YM) (\<lambda>ym.
     and_then (index punch BUX_MDAP) (\<lambda>mdap.
     let year = 2000 + drop_bit 2 (uint ym);
         month = push_bit 2 (uint ym AND 0x3) + drop_bit 6 (uint mdap);
         day = drop_bit 1 (uint mdap AND 0x3F);
         ampm = uint mdap AND 0x01
     in and_then (index punch BUX_SECS) (\<lambda>secs_hi.
        let (err, secs, us) =
              (if uint secs_hi \<ge> 0xF0
               then (''Err'' @ hex_digit (uint secs_hi AND 0xF), 0, 0)
               else ('''', to_int (slice punch BUX_SECS (BUX_SECS + 2)),
                     py_round (1000000 * to_int (slice punch BUX_MS (BUX_MS + 1))) 256));
            (month, year, err) =
              (if month = 0 then (month + 12, year - 1, err @ ''ErrDate'') else (month, year, err));
            (month, year, err) =
              (if month > 12 then (month - 12, year + 1, err @ ''ErrDate'') else (month, year, err));
            secs = secs + 12 * 3600 * ampm
        in and_then (datetime_new year month day 0 0 0 0) (\<lambda>d.
           and_then (dt_add d (timedelta 0 secs us)) (\<lambda>punch_datetime.
           Inr (punch_datetime, cardnr, err)))))))"

text \<open>
  The weekday expression of the legacy branch as the source has it:
  \<open>((punch[BUL_PTD] & 0x0E) >> 1 - 1) % 7\<close>.  In Python the binary minus binds tighter
  than the shift, so the shift count is \<open>1 - 1\<close>.
\<close>

definition bul_weekday :: "byte \<Rightarrow> int" where
  "bul_weekday ptd = (drop_bit (nat (1 - 1)) (uint ptd AND 0x0E)) mod 7"

text \<open>
  The concatenation \<open>"\x00" + punch[...]\<close> of the legacy branch has a \<open>str\<close> on the left
  and a \<open>bytes\<close> object on the right; in Python 3, which the module requires, this
  raises \<open>TypeError\<close>.
\<close>

definition str_add_bytes :: "string \<Rightarrow> bytes \<Rightarrow> error + bytes" where
  "str_add_bytes s b = Inl TypeError"

text \<open>
  The body of the loop over the punch data in \<open>read_backup\<close>, legacy protocol.  The
  comparison that selects the week is between an integer and a sum with the float
  \<open>secs_since_midnight\<close>; it is written here on microseconds, where it is exact.
\<close>

definition decode_bul :: "datetime \<Rightarrow> bytes \<Rightarrow> error + backup_punch" where
  "decode_bul now_datetime punch =
     (let now_weekday = weekday now_datetime;
          us_since_midnight = dt_diff now_datetime (midnight now_datetime)
      in and_then (str_add_bytes [CHR 0x00] (slice punch BUL_CNS (BUL_CNS + 1))) (\<lambda>prefix.
         and_then (decode_cardnr (prefix @ slice punch BUL_CN (BUL_CN + 2))) (\<lambda>cardnr.
         and_then (index punch BUL_PTD) (\<lambda>ptd.
         let wd = bul_weekday ptd;
             ampm = uint ptd AND 0x01
         in and_then (index punch BUL_SECS) (\<lambda>secs_hi.
            let (err, secs) =
                  (if uint secs_hi \<ge> 0xF0
                   then (''Err'' @ hex_digit (uint secs_hi AND 0xF), 0)
                   else ('''', to_int (slice punch BUL_SECS (BUL_SECS + 2))));
                secs = secs + 12 * 3600 * ampm;
                day_offset =
                  (if (wd * 24 * 3600 + secs) * 1000000
                       < (now_weekday * 24 * 3600 + 3600) * 1000000 + us_since_midnight
                   then now_weekday - wd
                   else now_weekday - wd + 7)
            in and_then (dt_add (midnight now_datetime) (timedelta day_offset secs 0))
                 (\<lambda>punch_datetime. Inr (punch_datetime, cardnr, err)))))))"

text \<open>
  The first loop of \<open>read_backup\<close>, which pages through the backup memory.  \<open>send\<close>
  stands for \<open>self._send_command(SIReader.C_GET_BACKUP, params)[1]\<close>, the data of the
  station's response to the request with parameters \<open>params\<close>; the read pointer grows
  with every request, so no two requests of one run have the same parameters.
\<close>

function read_backup_fetch ::
  "(bytes \<Rightarrow> error + bytes) \<Rightarrow> bool \<Rightarrow> int \<Rightarrow> int \<Rightarrow> bytes \<Rightarrow> error + bytes" where
  "read_backup_fetch send ext_proto end_ptr read_ptr bakmem =
     (if read_ptr < end_ptr then
        (case int2byte (drop_bit 16 read_ptr) of Inl e \<Rightarrow> Inl e | Inr b2 \<Rightarrow>
         case int2byte (drop_bit 8 read_ptr AND 0xFF) of Inl e \<Rightarrow> Inl e | Inr b1 \<Rightarrow>
         case int2byte (read_ptr AND 0xFF) of Inl e \<Rightarrow> Inl e | Inr b0 \<Rightarrow>
         case (if end_ptr - read_ptr < 0x80 then int2byte (end_ptr - read_ptr) else Inr [0x80]) of
           Inl e \<Rightarrow> Inl e
         | Inr byte_cnt \<Rightarrow>
         case send ((b2 @ b1 @ b0) @ byte_cnt) of Inl e \<Rightarrow> Inl e | Inr ret \<Rightarrow>
         case byte2int byte_cnt of Inl e \<Rightarrow> Inl e | Inr n \<Rightarrow>
           read_backup_fetch send ext_proto end_ptr (read_ptr + n)
             (bakmem @ drop ((if ext_proto then BUX_FIRST else BUL_FIRST) + 1) ret))
      else Inr bakmem)"
  by pat_completeness auto
termination
proof (relation "measure (\<lambda>(send, ext_proto, end_ptr, read_ptr, bakmem). nat (end_ptr - read_ptr))")
  show "wf (measure (\<lambda>(send, ext_proto, end_ptr, read_ptr, bakmem). nat (end_ptr - read_ptr)))"
    by simp
next
  fix send :: "bytes \<Rightarrow> error + bytes" and ext_proto :: bool and end_ptr read_ptr :: int
    and bakmem b2 b1 b0 byte_cnt ret :: bytes and n :: int
  assume lt: "read_ptr < end_ptr"
    and cnt: "(if end_ptr - read_ptr < 0x80 then int2byte (end_ptr - read_ptr) else Inr [0x80])
              = Inr byte_cnt"
    and n: "byte2int byte_cnt = Inr n"
  define k where "k = end_ptr - read_ptr"
  have b2i: "byte2int [word_of_int j] = Inr (take_bit 8 j)" for j :: int
    by (simp add: byte2int_def uint_word_of_int take_bit_eq_mod)
  have "0 < n"
  proof (cases "k < 0x80")
    case True
    then have "byte_cnt = [word_of_int k]"
      using cnt lt unfolding k_def [symmetric] by (simp add: int2byte_def split: if_splits)
    then have "n = take_bit 8 k"
      using n b2i [of k] by simp
    moreover have "take_bit 8 k = k"
      using True lt by (simp add: take_bit_int_eq_self k_def)
    ultimately show ?thesis using lt by (simp add: k_def)
  next
    case False
    then show ?thesis using cnt n unfolding k_def [symmetric] by (auto simp: byte2int_def)
  qed
  then show "((send, ext_proto, end_ptr, read_ptr + n,
               bakmem @ drop ((if ext_proto then BUX_FIRST else BUL_FIRST) + 1) ret),
              (send, ext_proto, end_ptr, read_ptr, bakmem))
             \<in> measure (\<lambda>(send, ext_proto, end_ptr, read_ptr, bakmem). nat (end_ptr - read_ptr))"
    using lt by simp
qed

text \<open>
  The second loop of \<open>read_backup\<close>, over the punch data, with \<open>step\<close> the record size
  of the protocol in use.
\<close>

function read_backup_decode ::
  "bool \<Rightarrow> datetime \<Rightarrow> bytes \<Rightarrow> nat \<Rightarrow> backup_punch list \<Rightarrow> error + backup_punch list" where
  "read_backup_decode ext_proto now_datetime bakmem ii res =
     (let step = (if ext_proto then BUX_SIZE else BUL_SIZE) in
      if ii < length bakmem then
        (case (if ext_proto then decode_bux (slice bakmem ii (ii + step))
               else decode_bul now_datetime (slice bakmem ii (ii + step))) of
           Inl e \<Rightarrow> Inl e
         | Inr p \<Rightarrow> read_backup_decode ext_proto now_datetime bakmem (ii + step) (res @ [p]))
      else Inr res)"
  by pat_completeness auto
termination
  by (relation "measure (\<lambda>(ext_proto, now_datetime, bakmem, ii, res). length bakmem - ii)")
     (auto simp: BUX_SIZE_def BUL_SIZE_def)

text \<open>
  \<open>read_backup\<close> from the point where the end pointer is known: the read pointer starts
  at 0x100, the backup memory is fetched and then decoded.
\<close>

definition read_backup ::
  "(bytes \<Rightarrow> error + bytes) \<Rightarrow> bool \<Rightarrow> datetime \<Rightarrow> int \<Rightarrow> error + backup_punch list" where
  "read_backup send ext_proto now_datetime end_ptr =
     and_then (read_backup_fetch send ext_proto end_ptr 0x100 [])
       (\<lambda>bakmem. read_backup_decode ext_proto now_datetime bakmem 0 [])"

text \<open>
  The requests of the paging loop in the words of the specification: while the read
  pointer is below the end pointer, a GET_BACKUP request with the three address bytes of
  the read pointer and the count \<open>min(0x80, end_ptr - read_ptr)\<close>, after which the read
  pointer advances by the count.
\<close>

function spec_backup_requests :: "int \<Rightarrow> int \<Rightarrow> bytes list" where
  "spec_backup_requests end_ptr read_ptr =
     (if read_ptr < end_ptr
      then (to_bytes_big read_ptr 3 @ [word_of_int (min 0x80 (end_ptr - read_ptr))])
           # spec_backup_requests end_ptr (read_ptr + min 0x80 (end_ptr - read_ptr))
      else [])"
  by pat_completeness auto
termination
  by (relation "measure (\<lambda>(end_ptr, read_ptr). nat (end_ptr - read_ptr))") auto

section \<open>Autosend punch poller\<close>

definition C_TRANS_REC :: bytes where "C_TRANS_REC = [0xD3]"
definition T_OFFSET :: nat where "T_OFFSET = 8"
definition T_CN :: nat where "T_CN = 0"
definition T_TIME :: nat where "T_TIME = 5"
definition BC_CN :: nat where "BC_CN = 3"
definition BC_TIME :: nat where "BC_TIME = 8"
definition REC_LEN :: int where "REC_LEN = 8"

text \<open>An element of the list \<open>poll_punch\<close> returns: \<open>(cardnr, punchtime)\<close>.\<close>

type_synonym punch = "int \<times> datetime option"

text \<open>
  \<open>SIReaderControl._read_punch\<close>; \<open>send\<close> is as in the backup reader, the data of the
  response to a GET_BACKUP request.
\<close>

definition read_punch :: "(bytes \<Rightarrow> error + bytes) \<Rightarrow> datetime \<Rightarrow> int \<Rightarrow> error + punch" where
  "read_punch send now offset =
     and_then (to_str offset 3) (\<lambda>offset_bytes.
     and_then (int2byte REC_LEN) (\<lambda>len_byte.
     and_then (send (offset_bytes @ len_byte)) (\<lambda>data.
     and_then (decode_cardnr ([0x00] @ slice data BC_CN (BC_CN + 3))) (\<lambda>cardnr.
     and_then (decode_time now (slice data BC_TIME (BC_TIME + 2)) None None) (\<lambda>punchtime.
     Inr (cardnr, punchtime))))))"

text \<open>The inner loop of \<open>poll_punch\<close> that recovers lost punches.\<close>

function recover_punches ::
  "(bytes \<Rightarrow> error + bytes) \<Rightarrow> datetime \<Rightarrow> int \<Rightarrow> int \<Rightarrow> punch list \<Rightarrow> error + punch list" where
  "recover_punches send now cur_offset next_offset punches =
     (if next_offset < cur_offset then
        (case read_punch send now next_offset of
           Inl e \<Rightarrow> Inl e
         | Inr p \<Rightarrow> recover_punches send now cur_offset (next_offset + REC_LEN) (punches @ [p]))
      else Inr punches)"
  by pat_completeness auto
termination
  by (relation "measure (\<lambda>(send, now, cur_offset, next_offset, punches). nat (cur_offset - next_offset))")
     (auto simp: REC_LEN_def)

text \<open>
  The loop \<open>while True\<close> of \<open>poll_punch\<close>.  The \<open>else\<close> clause that raises the
  unexpected-command error belongs to the \<open>while\<close> statement: it would run when the loop
  condition becomes false, which \<open>True\<close> never does, and \<open>break\<close> skips it.  The
  statement that appends the decoded punch follows the \<open>if\<close> statement and runs for
  every frame.  The state is the serial input and the attribute \<open>_next_offset\<close>.
\<close>

function poll_loop ::
  "(bytes \<Rightarrow> error + bytes) \<Rightarrow> datetime \<Rightarrow> reader \<Rightarrow> int option \<Rightarrow> punch list
     \<Rightarrow> error + punch list" where
  "poll_loop send now r next_offset punches =
     (case read_command r of
        (Inl e, r1) \<Rightarrow> (if e = Timeout then Inr punches else Inl e)
      | (Inr c, r1) \<Rightarrow>
          (case (if fst c = C_TRANS_REC then
                   (let cur_offset = to_int (slice (snd c) T_OFFSET (T_OFFSET + 3)) in
                    case (case next_offset of
                            None \<Rightarrow> Inr punches
                          | Some n \<Rightarrow> recover_punches send now cur_offset n punches) of
                      Inl e \<Rightarrow> Inl e
                    | Inr ps \<Rightarrow> Inr (Some (cur_offset + REC_LEN), ps))
                 else Inr (next_offset, punches)) of
             Inl e \<Rightarrow> Inl e
           | Inr st \<Rightarrow>
               (case decode_cardnr (slice (snd c) T_CN (T_CN + 4)) of
                  Inl e \<Rightarrow> Inl e
                | Inr cardnr \<Rightarrow>
                    (case decode_time now (slice (snd c) T_TIME (T_TIME + 2)) None None of
                       Inl e \<Rightarrow> Inl e
                     | Inr punchtime \<Rightarrow>
                         poll_loop send now r1 (fst st) (snd st @ [(cardnr, punchtime)])))))"
  by pat_completeness auto
termination
proof (relation "measure (\<lambda>(send, now, r, next_offset, punches). length (inbuf r))")
  show "wf (measure (\<lambda>(send, now, r, next_offset, punches). length (inbuf r)))"
    by simp
next
  fix send :: "bytes \<Rightarrow> error + bytes" and now :: datetime and r r1 :: reader
    and next_offset :: "int option" and punches :: "punch list"
    and x :: "error + bytes \<times> bytes" and c :: "bytes \<times> bytes"
    and st :: "int option \<times> punch list" and cardnr :: int and punchtime :: "datetime option"
  assume rc: "(x, r1) = read_command r" and x: "x = Inr c"
  have "read_command r = (Inr c, r1)"
    using rc x by simp
  then have "length (inbuf r1) < length (inbuf r)"
    by (cases "inbuf r")
       (auto simp: read_command_def serial_read_def Let_def WAKEUP_def STX_def NAK_def ETX_def
             split: if_splits prod.splits sum.splits)
  then show "((send, now, r1, fst st, snd st @ [(cardnr, punchtime)]),
              (send, now, r, next_offset, punches))
             \<in> measure (\<lambda>(send, now, r, next_offset, punches). length (inbuf r))"
    by simp
qed

text \<open>\<open>SIReaderControl.poll_punch\<close>; \<open>ext_proto\<close> and \<open>auto_send\<close> are the entries of
  \<open>proto_config\<close>.\<close>

definition poll_punch ::
  "(bytes \<Rightarrow> error + bytes) \<Rightarrow> datetime \<Rightarrow> bool \<Rightarrow> bool \<Rightarrow> reader \<Rightarrow> int option
     \<Rightarrow> error + punch list" where
  "poll_punch send now ext_proto auto_send r next_offset =
     (if \<not> ext_proto then Inl WrongProtocol
      else if \<not> auto_send then Inl WrongProtocol
      else poll_loop send now r next_offset [])"

section \<open>Station clock\<close>

text \<open>
  The seven bytes \<open>set_time\<close> sends as the parameters of SET_TIME;
  \<open>int(time.strftime("%y"))\<close> is the year within its century.
\<close>

definition set_time_bintime :: "datetime \<Rightarrow> error + bytes" where
  "set_time_bintime time =
     and_then (to_str (dt_year time mod 100) 1) (\<lambda>b0.
     and_then (to_str (dt_month time) 1) (\<lambda>b1.
     and_then (to_str (dt_day time) 1) (\<lambda>b2.
     and_then (to_str (push_bit 1 (isoweekday time mod 7) + dt_hour time div 12) 1) (\<lambda>b3.
     and_then (to_str ((dt_hour time mod 12) * 3600 + dt_minute time * 60 + dt_second time) 2) (\<lambda>b45.
     and_then (to_str (py_round (dt_microsecond time * 256) 1000000) 1) (\<lambda>b6.
     Inr (b0 @ b1 @ b2 @ b3 @ b45 @ b6)))))))"

text \<open>
  What \<open>get_time\<close> makes of the data \<open>bintime\<close> of the response to GET_TIME; the result
  \<open>Inr None\<close> is the return value \<open>None\<close> for an impossible date.
\<close>

definition get_time_decode :: "bytes \<Rightarrow> error + datetime option" where
  "get_time_decode bintime =
     and_then (index bintime 0) (\<lambda>b0.
     and_then (index bintime 1) (\<lambda>b1.
     and_then (index bintime 2) (\<lambda>b2.
     and_then (index bintime 3) (\<lambda>b3.
     let year = uint b0 + 2000;
         month = uint b1;
         day = uint b2;
         am_pm = uint b3 AND 1;
         second = to_int (slice bintime 4 6);
         hour = am_pm * 12 + second div 3600;
         second = second mod 3600;
         minute = second div 60;
         second = second mod 60
     in and_then (index bintime 6) (\<lambda>b6.
        let ms = py_round (uint b6 * 1000000) 256
        in case datetime_new year month day hour minute second ms of
             Inl e \<Rightarrow> Inr None
           | Inr t \<Rightarrow> Inr (Some t))))))"

section \<open>Facts about the byte helpers\<close>

lemma to_int_2: "to_int [a, b] = 256 * uint a + uint b"
  by (simp add: to_int_def push_bit_eq_mult)

lemma to_int_3: "to_int [a, b, c] = 65536 * uint a + 256 * uint b + uint c"
  by (simp add: to_int_def push_bit_eq_mult)

lemma uint_byte_bounds: "0 \<le> uint (b::byte) \<and> uint b \<le> 255"
  using uint_lt2p [of b] by simp

lemma decode_cardnr_4:
  "decode_cardnr [b0, b1, b2, b3] =
     (if b0 \<noteq> 0 then Inl UnknownCardSeries
      else if to_int [b1, b2, b3] < 500000
           then (if uint b1 < 2 then Inr (to_int [b2, b3])
                 else Inr (uint b1 * 100000 + to_int [b2, b3]))
           else Inr (to_int [b1, b2, b3]))"
  by (simp add: decode_cardnr_def slice_def index_def)

section \<open>Card numbers: the branches of the decoder\<close>

text \<open>
  C3, as stated, ends with the sentence that the results of the SI5 branch and of the
  SI6 branch are separated by the threshold 500000 for every 4-byte input.  The two
  inputs below fall into different branches and decode to the same number 500000: the
  first has series byte 5 and takes the SI5 branch, the second has its low three bytes
  equal to 500000 and takes the other branch.
\<close>

theorem decode_cardnr_ranges_overlap:
  "decode_cardnr [0, 5, 0, 0] = Inr 500000 \<and> to_int [5, 0, 0] < 500000
   \<and> decode_cardnr [0, 7, 0xA1, 0x20] = Inr 500000 \<and> \<not> to_int [7, 0xA1, 0x20] < 500000"
  by (simp add: decode_cardnr_4 to_int_2 to_int_3)

text \<open>
  C3 (amended).  For every 4-byte input: a nonzero leading byte fails with the
  unknown-card-series error; otherwise, when the low three bytes as a big-endian integer
  are below 500000 the result is the low two bytes if the series byte is below 2 and
  series times 100000 plus the low two bytes otherwise; when they are at least 500000
  the result is the low three bytes.  The result of the second branch is always at
  least 500000, and the result of the first branch is below 500000 whenever the series
  byte is at most 4, the range of series the docstring gives for SI-Card 5.
\<close>

theorem decode_cardnr_branches:
  fixes b0 b1 b2 b3 :: byte
  shows "(b0 \<noteq> 0 \<longrightarrow> decode_cardnr [b0, b1, b2, b3] = Inl UnknownCardSeries)
    \<and> (b0 = 0 \<and> to_int [b1, b2, b3] < 500000 \<and> uint b1 < 2 \<longrightarrow>
         decode_cardnr [b0, b1, b2, b3] = Inr (to_int [b2, b3]))
    \<and> (b0 = 0 \<and> to_int [b1, b2, b3] < 500000 \<and> 2 \<le> uint b1 \<longrightarrow>
         decode_cardnr [b0, b1, b2, b3] = Inr (uint b1 * 100000 + to_int [b2, b3]))
    \<and> (b0 = 0 \<and> 500000 \<le> to_int [b1, b2, b3] \<longrightarrow>
         decode_cardnr [b0, b1, b2, b3] = Inr (to_int [b1, b2, b3]))
    \<and> (b0 = 0 \<and> to_int [b1, b2, b3] < 500000 \<and> uint b1 \<le> 4 \<longrightarrow>
         (\<exists>r. decode_cardnr [b0, b1, b2, b3] = Inr r \<and> 0 \<le> r \<and> r < 500000))
    \<and> (b0 = 0 \<and> 500000 \<le> to_int [b1, b2, b3] \<longrightarrow>
         (\<exists>r. decode_cardnr [b0, b1, b2, b3] = Inr r \<and> 500000 \<le> r))
    \<and> to_int [b1, b2, b3] = 65536 * uint b1 + 256 * uint b2 + uint b3
    \<and> to_int [b2, b3] = 256 * uint b2 + uint b3"
proof -
  have b2: "0 \<le> uint b2" "uint b2 \<le> 255" and b3: "0 \<le> uint b3" "uint b3 \<le> 255"
    using uint_byte_bounds by blast+
  have low: "0 \<le> to_int [b2, b3]" "to_int [b2, b3] \<le> 65535"
    using b2 b3 by (simp_all add: to_int_2)
  have small: "uint b1 \<le> 4 \<Longrightarrow> \<not> uint b1 < 2 \<Longrightarrow> uint b1 * 100000 + to_int [b2, b3] < 500000"
    using low by simp
  show ?thesis
    using low small by (simp add: decode_cardnr_4 to_int_3 to_int_2)
qed

theorem decode_cardnr_branches_witness:
  "decode_cardnr [1, 0, 0, 0] = Inl UnknownCardSeries
   \<and> decode_cardnr [0, 1, 0x20, 0x5B] = Inr 8283
   \<and> decode_cardnr [0, 2, 0, 5] = Inr 200005
   \<and> decode_cardnr [0, 0x0F, 0x42, 0x40] = Inr 1000000"
  using decode_cardnr_branches [of 1 0 0 0] decode_cardnr_branches [of 0 1 32 91]
    decode_cardnr_branches [of 0 2 0 5] decode_cardnr_branches [of 0 15 66 64]
  by (simp add: to_int_2 to_int_3)

section \<open>CRC of short inputs\<close>

text \<open>
  C4.  The CRC of the empty byte string is 00 00 and the check accepts the CRC the
  codec computed for any payload.  For the single byte 0x53 the codec returns 00 53: the
  guard of \<open>_crc\<close> is \<open>len(s) < 1\<close>, so a single byte becomes the initial value of the
  register and no word is processed, although the comment on the guard says that the
  value for one or no data byte is 0.
\<close>

theorem crc_short_inputs:
  "crc [] = [0, 0] \<and> crc [0x53] = [0, 0x53] \<and> (\<forall>s. crc_check s (crc s))"
  by (simp add: crc_def crc_check_def slice_def to_int_def twochars_def)


section \<open>Facts about the CRC and the frame codec\<close>

lemma funpow16: "(f ^^ 16) x = f (f (f (f (f (f (f (f (f (f (f (f (f (f (f (f x)))))))))))))))"
  by (simp add: eval_nat_numeral)

lemmas crc_eval =
  crc_def crc_word_def funpow16 CRC_BITF_def CRC_POLYNOM_def slice_def to_int_def twochars_def

lemmas frame_consts = WAKEUP_def STX_def NAK_def ETX_def

lemma crc_two: "\<exists>x y. crc s = [x, y]"
  by (simp add: crc_def Let_def)

lemma uint_len_byte: "n \<le> 255 \<Longrightarrow> uint (word_of_int (int n) :: byte) = int n"
  by (simp add: unsigned_of_nat take_bit_nat_eq_self)

lemma crc_set_ms: "crc [0xF0, 0x01, 0x4D] = [0x6D, 0x0A]"
  by (simp add: crc_eval)

lemma crc_set_ms_reply: "crc [0xF0, 0x03, 0x00, 0x2A, 0x4D] = [0x0D, 0xEB]"
  by (simp add: crc_eval)

lemma read_encoded:
  assumes "uint l = int (length rest) + 2"
  shows "read_command (r\<lparr>inbuf := 0x02 # c # l # p1 # p2 # rest @ crc (c # l # p1 # p2 # rest) @ [0x03]\<rparr>)
         = (Inr ([c], rest), r\<lparr>inbuf := [], station_code := Some (to_int [p1, p2])\<rparr>)"
proof -
  obtain x y where cr: "crc (c # l # p1 # p2 # rest) = [x, y]"
    using crc_two by blast
  show ?thesis
    using assms
    by (simp add: cr read_command_def serial_read_def frame_consts byte2int_def crc_check_def Let_def)
qed

section \<open>Frame symmetry\<close>

text \<open>
  C8, as stated, says that the response parser returns the parameters of any frame the
  request encoder assembled.  The request for SET_MS with the one parameter 4D is the
  frame 02 F0 01 4D 6D 0A 03; the parser takes 4D 6D as the station code, reads no data,
  takes 0A 03 as the CRC and finds no ETX byte.  With the three parameters 00 2A 4D the
  parser succeeds, and the data it returns is 4D, not the three parameters.
\<close>

theorem frame_symmetry_fails:
  "encode_command [0xF0] [0x4D] True = Inr [0x02, 0xF0, 0x01, 0x4D, 0x6D, 0x0A, 0x03]
   \<and> fst (read_command \<lparr>inbuf = [0x02, 0xF0, 0x01, 0x4D, 0x6D, 0x0A, 0x03], outbuf = [],
                          station_code = None\<rparr>) = Inl NoETX
   \<and> encode_command [0xF0] [0x00, 0x2A, 0x4D] True
       = Inr [0x02, 0xF0, 0x03, 0x00, 0x2A, 0x4D, 0x0D, 0xEB, 0x03]
   \<and> fst (read_command \<lparr>inbuf = [0x02, 0xF0, 0x03, 0x00, 0x2A, 0x4D, 0x0D, 0xEB, 0x03],
                          outbuf = [], station_code = None\<rparr>) = Inr ([0xF0], [0x4D])"
  by (simp add: encode_command_def int2byte_def read_command_def serial_read_def frame_consts
      byte2int_def crc_check_def crc_set_ms crc_set_ms_reply)

text \<open>
  C8 (amended).  For every command byte and every parameter string of 2 to 255 bytes,
  the frame assembled by the request encoder without the wake-up byte is STX, cmd,
  length, params, CRC, ETX; the response parser accepts it (ETX and CRC checks pass),
  returns the same command byte, takes the first two parameter bytes as the station
  code and returns the remaining parameter bytes as data.
\<close>

theorem frame_symmetry:
  assumes "2 \<le> length params" and "length params \<le> 255"
  shows "\<exists>frame. encode_command [c] params True = Inr frame
     \<and> frame = [0x02, c, word_of_int (int (length params))] @ params
                @ crc ([c, word_of_int (int (length params))] @ params) @ [0x03]
     \<and> read_command (r\<lparr>inbuf := frame\<rparr>)
         = (Inr ([c], drop 2 params), r\<lparr>inbuf := [], station_code := Some (to_int (take 2 params))\<rparr>)
     \<and> take 2 params @ drop 2 params = params"
proof -
  obtain p1 p2 rest where p: "params = p1 # p2 # rest"
    using assms(1) by (cases params; cases "tl params") auto
  have len: "uint (word_of_int (int (length params)) :: byte) = int (length rest) + 2"
    using uint_len_byte [OF assms(2)] by (simp add: p)
  have enc: "encode_command [c] params True = Inr ([0x02, c, word_of_int (int (length params))] @ params
                @ crc ([c, word_of_int (int (length params))] @ params) @ [0x03])"
    using assms(2) by (simp add: encode_command_def int2byte_def frame_consts)
  show ?thesis
    using enc read_encoded [OF len, where r = r and c = c and ?p1.0 = p1 and ?p2.0 = p2]
    by (simp add: p)
qed

theorem frame_symmetry_witness:
  "2 \<le> length [0x00, 0x2A, 0x4D :: byte] \<and> length [0x00, 0x2A, 0x4D :: byte] \<le> 255
   \<and> read_command \<lparr>inbuf = [0x02, 0xF0, 0x03, 0x00, 0x2A, 0x4D, 0x0D, 0xEB, 0x03],
                     outbuf = [], station_code = None\<rparr>
       = (Inr ([0xF0], [0x4D]), \<lparr>inbuf = [], outbuf = [], station_code = Some 42\<rparr>)"
  using frame_symmetry [where params = "[0x00, 0x2A, 0x4D]" and c = "0xF0"
      and r = "\<lparr>inbuf = [], outbuf = [], station_code = None\<rparr>"]
  by (simp add: crc_set_ms_reply to_int_2)

section \<open>The cached station code\<close>

text \<open>
  C9.  Whenever the input starts with STX (possibly after one wake-up byte) and the
  command, length and two station bytes follow, \<open>_read_command\<close> leaves the cached
  station code at the big-endian value of the two station bytes, whatever the rest of
  the input is and whatever the outcome of the call: the assignment precedes the ETX and
  CRC checks.
\<close>

theorem read_command_station_code:
  "station_code (snd (read_command (r\<lparr>inbuf := 0x02 # cmd # len # s1 # s2 # rest\<rparr>)))
     = Some (to_int [s1, s2])
   \<and> station_code (snd (read_command (r\<lparr>inbuf := 0xFF # 0x02 # cmd # len # s1 # s2 # rest\<rparr>)))
     = Some (to_int [s1, s2])
   \<and> to_int [s1, s2] = 256 * uint s1 + uint s2"
  by (simp add: read_command_def serial_read_def frame_consts byte2int_def Let_def to_int_def
      push_bit_eq_mult split: prod.splits)

text \<open>Two failing calls, one with a wrong ETX byte and one with a wrong CRC.\<close>

theorem read_command_station_code_witness:
  "fst (read_command \<lparr>inbuf = [0x02, 0xF0, 0x03, 0x00, 0x2A, 0x4D, 0x0D, 0xEB, 0x04],
                        outbuf = [], station_code = Some 7\<rparr>) = Inl NoETX
   \<and> station_code (snd (read_command \<lparr>inbuf = [0x02, 0xF0, 0x03, 0x00, 0x2A, 0x4D, 0x0D, 0xEB, 0x04],
                        outbuf = [], station_code = Some 7\<rparr>)) = Some 42
   \<and> fst (read_command \<lparr>inbuf = [0x02, 0xF0, 0x03, 0x00, 0x2A, 0x4D, 0x0D, 0xEC, 0x03],
                        outbuf = [], station_code = Some 7\<rparr>) = Inl CRCFailed
   \<and> station_code (snd (read_command \<lparr>inbuf = [0x02, 0xF0, 0x03, 0x00, 0x2A, 0x4D, 0x0D, 0xEC, 0x03],
                        outbuf = [], station_code = Some 7\<rparr>)) = Some 42"
proof -
  let ?r = "\<lparr>inbuf = [], outbuf = [], station_code = Some 7\<rparr>"
  have a: "station_code (snd (read_command \<lparr>inbuf = [0x02, 0xF0, 0x03, 0x00, 0x2A, 0x4D, 0x0D, 0xEB, 0x04],
                        outbuf = [], station_code = Some 7\<rparr>)) = Some 42"
    using read_command_station_code [where r = ?r and cmd = "0xF0" and len = "0x03" and ?s1.0 = "0x00"
        and ?s2.0 = "0x2A" and rest = "[0x4D, 0x0D, 0xEB, 0x04]"]
    by simp
  have b: "station_code (snd (read_command \<lparr>inbuf = [0x02, 0xF0, 0x03, 0x00, 0x2A, 0x4D, 0x0D, 0xEC, 0x03],
                        outbuf = [], station_code = Some 7\<rparr>)) = Some 42"
    using read_command_station_code [where r = ?r and cmd = "0xF0" and len = "0x03" and ?s1.0 = "0x00"
        and ?s2.0 = "0x2A" and rest = "[0x4D, 0x0D, 0xEC, 0x03]"]
    by simp
  have c: "fst (read_command \<lparr>inbuf = [0x02, 0xF0, 0x03, 0x00, 0x2A, 0x4D, 0x0D, 0xEB, 0x04],
                        outbuf = [], station_code = Some 7\<rparr>) = Inl NoETX"
    by (simp add: read_command_def serial_read_def frame_consts byte2int_def)
  have d: "fst (read_command \<lparr>inbuf = [0x02, 0xF0, 0x03, 0x00, 0x2A, 0x4D, 0x0D, 0xEC, 0x03],
                        outbuf = [], station_code = Some 7\<rparr>) = Inl CRCFailed"
    by (simp add: read_command_def serial_read_def frame_consts byte2int_def crc_check_def
        crc_set_ms_reply)
  show ?thesis using a b c d by simp
qed


section \<open>Weekday of a legacy backup record\<close>

text \<open>
  C5.  The weekday that \<open>read_backup\<close> computes for a legacy record is meant to be the
  one of \<open>_decode_time\<close>, Monday = 0 (the comment on the line says so).  For the PTD
  byte 00 (Sunday) the expression of \<open>read_backup\<close> gives 0 and the expression of
  \<open>_decode_time\<close> gives 6: the shift count in \<open>read_backup\<close> is \<open>1 - 1\<close>.  Before
  that, the record is not decoded at all: the concatenation of a \<open>str\<close> and a \<open>bytes\<close>
  object at the start of the legacy branch raises \<open>TypeError\<close>.
\<close>

theorem legacy_weekday_differs:
  "bul_weekday 0x00 = 0 \<and> ptd_weekday 0x00 = 6
   \<and> decode_bul now [0x00, 0x2A, 0x1C, 0x20, 0x00, 0x01] = Inl TypeError"
  by (simp add: bul_weekday_def ptd_weekday_def decode_bul_def str_add_bytes_def and_then_def)

section \<open>Frames other than autosend punches in the poller\<close>

text \<open>
  C6.  \<open>poll_punch\<close> returns its list only when a read times out.  A frame whose
  command is not C_TRANS_REC does not make it fail with the unexpected-command error:
  the frame E7 with data 00 01 20 5B 00 1C 20 is decoded like a punch and returned, and
  the frame F0 with data 4D fails in the card-number decoder instead.
\<close>

theorem poll_punch_other_frame:
  "poll_punch send
     \<lparr>dt_year = 2024, dt_month = 5, dt_day = 14, dt_hour = 17, dt_minute = 33, dt_second = 12,
      dt_microsecond = 123456\<rparr>
     True True
     \<lparr>inbuf = [0x02, 0xE7, 0x09, 0x00, 0x2A, 0x00, 0x01, 0x20, 0x5B, 0x00, 0x1C, 0x20, 0x14, 0x11, 0x03],
      outbuf = [], station_code = None\<rparr> None
   = Inr [(8283, Some \<lparr>dt_year = 2024, dt_month = 5, dt_day = 14, dt_hour = 14, dt_minute = 0,
                          dt_second = 0, dt_microsecond = 0\<rparr>)]
   \<and> poll_punch send
     \<lparr>dt_year = 2024, dt_month = 5, dt_day = 14, dt_hour = 17, dt_minute = 33, dt_second = 12,
      dt_microsecond = 123456\<rparr>
     True True
     \<lparr>inbuf = [0x02, 0xF0, 0x03, 0x00, 0x2A, 0x4D, 0x0D, 0xEB, 0x03],
      outbuf = [], station_code = None\<rparr> None
   = Inl UnknownCardSeries"
  by code_simp

section \<open>A record of the extended protocol\<close>

text \<open>
  C1, as stated, gives the card number 65578 for the record 01 00 2A 5C C3 1C 20 80
  (the leading 00 of the nine bytes of the claim is the byte that \<open>read_backup\<close> puts in
  front of the three card-number bytes).  The decoder returns another number.
\<close>

theorem backup_record_not_65578:
  "decode_bux [0x01, 0x00, 0x2A, 0x5C, 0xC3, 0x1C, 0x20, 0x80]
   \<noteq> Inr (\<lparr>dt_year = 2023, dt_month = 3, dt_day = 1, dt_hour = 14, dt_minute = 0, dt_second = 0,
             dt_microsecond = 500000\<rparr>, 65578, '''')"
  by code_simp

text \<open>
  C1 (amended).  In extended protocol, \<open>read_backup\<close> decodes the backup record
  01 00 2A 5C C3 1C 20 80 to the date and time 2023-03-01 14:00:00.500000, the card
  number 42 and the empty error tag.  The card number is \<open>_decode_cardnr\<close> of 00 followed
  by the three card-number bytes: their value 65578 is below 500000 and the series byte
  is 1, so the result is the value of the low two bytes.
\<close>

theorem backup_record_extended:
  "decode_cardnr [0x00, 0x01, 0x00, 0x2A] = Inr 42
   \<and> decode_bux [0x01, 0x00, 0x2A, 0x5C, 0xC3, 0x1C, 0x20, 0x80]
     = Inr (\<lparr>dt_year = 2023, dt_month = 3, dt_day = 1, dt_hour = 14, dt_minute = 0, dt_second = 0,
              dt_microsecond = 500000\<rparr>, 42, '''')
   \<and> read_backup (\<lambda>params. Inr ([0x00, 0x00, 0x00] @ [0x01, 0x00, 0x2A, 0x5C, 0xC3, 0x1C, 0x20, 0x80]))
       True now 0x108
     = Inr [(\<lparr>dt_year = 2023, dt_month = 3, dt_day = 1, dt_hour = 14, dt_minute = 0, dt_second = 0,
               dt_microsecond = 500000\<rparr>, 42, '''')]"
  by code_simp


section \<open>Facts about the station clock encoding\<close>

lemma to_str_1: "0 \<le> x \<Longrightarrow> x < 256 \<Longrightarrow> to_str x 1 = Inr [word_of_int x]"
  by (simp add: to_str_def)

lemma to_str_2: "0 \<le> x \<Longrightarrow> x < 65536 \<Longrightarrow> to_str x 2 = Inr [word_of_int (x div 256 mod 256), word_of_int (x mod 256)]"
  by (simp add: to_str_def numeral_2_eq_2)

lemma uint_byte_of_int: "0 \<le> x \<Longrightarrow> x < 256 \<Longrightarrow> uint (word_of_int x :: byte) = x"
  by (simp add: uint_word_of_int take_bit_eq_mod)

lemma py_round_bounds:
  assumes "0 < d"
  shows "n div d \<le> py_round n d" and "py_round n d \<le> n div d + 1"
  by (simp_all add: py_round_def Let_def)

lemma py_round_byte_us:
  assumes "0 \<le> k" and "k \<le> 255"
  shows "0 \<le> py_round (k * 1000000) 256" and "py_round (k * 1000000) 256 \<le> 999999"
proof -
  have "0 \<le> (k * 1000000) div 256" using assms by simp
  then show "0 \<le> py_round (k * 1000000) 256"
    using py_round_bounds(1) [of 256 "k * 1000000"] by linarith
  have "(k * 1000000) div 256 \<le> (255 * 1000000) div 256"
    using assms by (intro zdiv_mono1) simp_all
  then show "py_round (k * 1000000) 256 \<le> 999999"
    using py_round_bounds(2) [of 256 "k * 1000000"] by simp
qed

lemma isoweekday_range: "1 \<le> isoweekday t \<and> isoweekday t \<le> 7"
proof -
  have "0 \<le> toordinal t mod 7" "toordinal t mod 7 < 7" by simp_all
  then show ?thesis unfolding isoweekday_def by auto
qed

lemma set_time_no_tie: "2 * ((us * 256) mod 1000000) \<noteq> (1000000 :: int)"
proof
  assume "2 * ((us * 256) mod 1000000) = (1000000 :: int)"
  then have h: "(us * 256) mod 1000000 = 500000" by simp
  have "(us * 256) mod 1000000 mod 64 = (us * 256) mod 64"
    by (rule mod_mod_cancel) simp
  also have "\<dots> = 0" by simp
  finally show False using h by simp
qed

lemma div_mod_base:
  fixes q d r :: int
  assumes "0 \<le> r" and "r < d"
  shows "(q * d + r) div d = q" and "(q * d + r) mod d = r"
proof -
  have d: "d \<noteq> 0" using assms by auto
  show "(q * d + r) div d = q"
    using assms d by (simp add: div_pos_pos_trivial)
  show "(q * d + r) mod d = r"
    using assms d by (simp add: mod_pos_pos_trivial)
qed

section \<open>Setting and reading the station clock\<close>

text \<open>
  C10.  For every \<open>datetime\<close> \<open>t\<close> with a year from 2000 to 2099 whose microsecond
  field rounds to at most 255 in units of 1/256 second, \<open>set_time\<close> produces seven bytes,
  and \<open>get_time\<close> decodes them to \<open>t\<close> with the microsecond field replaced by
  \<open>round(round(t.microsecond * 256 / 10^6) * 10^6 / 256)\<close>: year, month, day, hour, minute
  and second are recovered.
\<close>

theorem set_time_get_time_roundtrip:
  assumes v: "valid_datetime t"
    and y: "2000 \<le> dt_year t" "dt_year t \<le> 2099"
    and r: "py_round (dt_microsecond t * 256) 1000000 \<le> 255"
  shows "\<exists>bintime. set_time_bintime t = Inr bintime \<and> length bintime = 7
     \<and> get_time_decode bintime
         = Inr (Some (t\<lparr>dt_microsecond :=
                  py_round (py_round (dt_microsecond t * 256) 1000000 * 1000000) 256\<rparr>))"
proof -
  define k where "k = py_round (dt_microsecond t * 256) 1000000"
  define w where "w = push_bit 1 (isoweekday t mod 7) + dt_hour t div 12"
  define secs where "secs = (dt_hour t mod 12) * 3600 + dt_minute t * 60 + dt_second t"
  have date: "check_date_fields (dt_year t) (dt_month t) (dt_day t)"
    and time: "check_time_fields (dt_hour t) (dt_minute t) (dt_second t) (dt_microsecond t)"
    using v by (simp_all add: valid_datetime_def)
  have m: "1 \<le> dt_month t" "dt_month t \<le> 12" and d1: "1 \<le> dt_day t"
    and dd: "dt_day t \<le> days_in_month (dt_year t) (dt_month t)"
    using date by (simp_all add: check_date_fields_def)
  have h: "0 \<le> dt_hour t" "dt_hour t \<le> 23" and mi: "0 \<le> dt_minute t" "dt_minute t \<le> 59"
    and s: "0 \<le> dt_second t" "dt_second t \<le> 59"
    and us: "0 \<le> dt_microsecond t" "dt_microsecond t \<le> 999999"
    using time by (simp_all add: check_time_fields_def)
  have dim: "days_in_month (dt_year t) (dt_month t) \<le> 31"
  proof -
    have "dt_month t \<in> {1, 2, 3, 4, 5, 6, 7, 8, 9, 10, 11, 12}" using m by (simp; arith)
    then show ?thesis by (auto simp: days_in_month_def DAYS_IN_MONTH_def)
  qed
  have d: "dt_day t < 256" using dd dim by simp
  have yy: "0 \<le> dt_year t mod 100" "dt_year t mod 100 < 256" "dt_year t mod 100 + 2000 = dt_year t"
    using y by presburger+
  have k0: "0 \<le> k"
  proof -
    have "0 \<le> dt_microsecond t * 256 div 1000000"
      using us(1) by (simp add: pos_imp_zdiv_nonneg_iff)
    then show ?thesis
      using py_round_bounds(1) [of 1000000 "dt_microsecond t * 256"] by (simp add: k_def)
  qed
  have k1: "k \<le> 255" using r by (simp add: k_def)
  have hd: "dt_hour t div 12 = 0 \<or> dt_hour t div 12 = 1" using h by presburger
  have iw: "0 \<le> isoweekday t mod 7" "isoweekday t mod 7 \<le> 6" by simp_all
  have w0: "0 \<le> w" "w < 256"
    using iw hd by (auto simp: w_def push_bit_eq_mult)
  have wbit: "w AND 1 = dt_hour t div 12"
    using hd by (auto simp: w_def push_bit_eq_mult and_one_eq)
  have hm: "0 \<le> dt_hour t mod 12" "dt_hour t mod 12 \<le> 11" by simp_all
  have secs0: "0 \<le> secs" "secs < 65536"
    using hm mi s by (simp_all add: secs_def)
  have ms60: "0 \<le> dt_minute t * 60 + dt_second t" "dt_minute t * 60 + dt_second t < 3600"
    using mi s by simp_all
  have secs_eq: "secs = (dt_hour t mod 12) * 3600 + (dt_minute t * 60 + dt_second t)"
    by (simp add: secs_def)
  have secs_div: "secs div 3600 = dt_hour t mod 12"
    unfolding secs_eq using ms60 by (rule div_mod_base(1))
  have secs_mod: "secs mod 3600 = dt_minute t * 60 + dt_second t"
    unfolding secs_eq using ms60 by (rule div_mod_base(2))
  have s60: "dt_second t < 60" using s by simp
  have min_div: "(dt_minute t * 60 + dt_second t) div 60 = dt_minute t"
    using s(1) s60 by (rule div_mod_base(1))
  have sec_mod: "(dt_minute t * 60 + dt_second t) mod 60 = dt_second t"
    using s(1) s60 by (rule div_mod_base(2))
  have s_mod: "dt_second t mod 60 = dt_second t"
    using s by (simp add: mod_pos_pos_trivial)
  have hour: "dt_hour t div 12 * 12 + dt_hour t mod 12 = dt_hour t" by simp
  have sdm: "0 \<le> secs div 256" "secs div 256 < 256" "secs div 256 mod 256 = secs div 256"
    using secs0 by simp_all
  have to_int_secs: "to_int [word_of_int (secs div 256 mod 256) :: byte, word_of_int (secs mod 256)] = secs"
    using secs0 sdm by (simp add: to_int_2 uint_byte_of_int)
  have ms: "0 \<le> py_round (k * 1000000) 256" "py_round (k * 1000000) 256 \<le> 999999"
    using py_round_byte_us [OF k0 k1] by simp_all
  have e0: "to_str (dt_year t mod 100) 1 = Inr [word_of_int (dt_year t mod 100)]"
    using yy by (intro to_str_1) simp_all
  have e1: "to_str (dt_month t) 1 = Inr [word_of_int (dt_month t)]"
    using m by (intro to_str_1) simp_all
  have e2: "to_str (dt_day t) 1 = Inr [word_of_int (dt_day t)]"
    using d1 d by (intro to_str_1) simp_all
  have e3: "to_str w 1 = Inr [word_of_int w]"
    using w0 by (intro to_str_1) simp_all
  have e45: "to_str secs 2 = Inr [word_of_int (secs div 256 mod 256), word_of_int (secs mod 256)]"
    using secs0 by (intro to_str_2) simp_all
  have e6: "to_str k 1 = Inr [word_of_int k]"
    using k0 k1 by (intro to_str_1) simp_all
  have enc: "set_time_bintime t =
      Inr [word_of_int (dt_year t mod 100), word_of_int (dt_month t), word_of_int (dt_day t),
           word_of_int w, word_of_int (secs div 256 mod 256), word_of_int (secs mod 256),
           word_of_int k]"
    unfolding set_time_bintime_def w_def [symmetric] secs_def [symmetric] k_def [symmetric]
      e0 e1 e2 e3 e45 e6 and_then_def
    by simp
  have new: "datetime_new (dt_year t) (dt_month t) (dt_day t) (dt_hour t) (dt_minute t) (dt_second t)
               (py_round (k * 1000000) 256)
             = Inr (t\<lparr>dt_microsecond := py_round (k * 1000000) 256\<rparr>)"
    using date time ms by (simp add: datetime_new_def check_time_fields_def)
  have dec: "get_time_decode
      [word_of_int (dt_year t mod 100), word_of_int (dt_month t), word_of_int (dt_day t),
       word_of_int w, word_of_int (secs div 256 mod 256), word_of_int (secs mod 256),
       word_of_int k]
     = Inr (Some (t\<lparr>dt_microsecond := py_round (k * 1000000) 256\<rparr>))"
    using yy m d1 d w0 k0 k1 hour
    by (simp add: get_time_decode_def and_then_def index_def slice_def uint_byte_of_int
        to_int_secs wbit secs_div secs_mod min_div sec_mod s_mod new mult.commute)
  show ?thesis using enc dec by (simp add: k_def)
qed

theorem set_time_get_time_roundtrip_witness:
  "valid_datetime \<lparr>dt_year = 2024, dt_month = 5, dt_day = 14, dt_hour = 17, dt_minute = 33,
                    dt_second = 12, dt_microsecond = 123456\<rparr>
   \<and> (2000 :: int) \<le> 2024 \<and> (2024 :: int) \<le> 2099
   \<and> py_round (123456 * 256) 1000000 \<le> 255
   \<and> set_time_bintime \<lparr>dt_year = 2024, dt_month = 5, dt_day = 14, dt_hour = 17, dt_minute = 33,
                    dt_second = 12, dt_microsecond = 123456\<rparr>
       = Inr [24, 5, 14, 5, 78, 24, 32]
   \<and> get_time_decode [24, 5, 14, 5, 78, 24, 32]
       = Inr (Some \<lparr>dt_year = 2024, dt_month = 5, dt_day = 14, dt_hour = 17, dt_minute = 33,
                    dt_second = 12, dt_microsecond = 125000\<rparr>)"
proof -
  let ?t = "\<lparr>dt_year = 2024, dt_month = 5, dt_day = 14, dt_hour = 17, dt_minute = 33,
             dt_second = 12, dt_microsecond = 123456\<rparr>"
  have v: "valid_datetime ?t" by code_simp
  have y: "2000 \<le> dt_year ?t" "dt_year ?t \<le> 2099" by simp_all
  have r: "py_round (dt_microsecond ?t * 256) 1000000 \<le> 255" by code_simp
  have enc: "set_time_bintime ?t = Inr [24, 5, 14, 5, 78, 24, 32]" by code_simp
  have k: "py_round (py_round (123456 * 256) 1000000 * 1000000) 256 = 125000" by code_simp
  have r': "py_round (123456 * 256) 1000000 \<le> 255" by code_simp
  from set_time_get_time_roundtrip [OF v y r] enc k
  have "get_time_decode [24, 5, 14, 5, 78, 24, 32]
       = Inr (Some \<lparr>dt_year = 2024, dt_month = 5, dt_day = 14, dt_hour = 17, dt_minute = 33,
                    dt_second = 12, dt_microsecond = 125000\<rparr>)"
    by simp
  with v enc r' show ?thesis by simp
qed


section \<open>Facts about the backup paging loop\<close>

lemma addr_bytes:
  assumes "0 \<le> r" and "r < 0x1000000"
  shows "int2byte (drop_bit 16 r) = Inr [word_of_int (drop_bit 16 r)]"
    and "int2byte (drop_bit 8 r AND 0xFF) = Inr [word_of_int (drop_bit 8 r AND 0xFF)]"
    and "int2byte (r AND 0xFF) = Inr [word_of_int (r AND 0xFF)]"
    and "[word_of_int (drop_bit 16 r), word_of_int (drop_bit 8 r AND 0xFF), word_of_int (r AND 0xFF)]
         = (to_bytes_big r 3 :: bytes)"
proof -
  have m: "(0xFF :: int) = mask 8" by (simp add: mask_eq_exp_minus_1)
  have a: "x AND 0xFF = x mod 256" for x :: int
    unfolding m by (simp add: take_bit_eq_mod flip: take_bit_eq_mask)
  have d16: "drop_bit 16 r = r div 65536" and d8: "drop_bit 8 r = r div 256"
    by (simp_all add: drop_bit_eq_div)
  have hi: "0 \<le> r div 65536" "r div 65536 \<le> 255" using assms by simp_all
  show "int2byte (drop_bit 16 r) = Inr [word_of_int (drop_bit 16 r)]"
    using hi by (simp add: int2byte_def d16)
  show "int2byte (drop_bit 8 r AND 0xFF) = Inr [word_of_int (drop_bit 8 r AND 0xFF)]"
    by (simp add: int2byte_def a)
  show "int2byte (r AND 0xFF) = Inr [word_of_int (r AND 0xFF)]"
    by (simp add: int2byte_def a)
  have "r div 65536 mod 256 = r div 65536" using hi by simp
  moreover have "r div 256 div 256 = r div 65536" by (simp add: div_mult2_eq [symmetric])
  ultimately show "[word_of_int (drop_bit 16 r), word_of_int (drop_bit 8 r AND 0xFF), word_of_int (r AND 0xFF)]
         = (to_bytes_big r 3 :: bytes)"
    by (simp add: a d16 d8 numeral_3_eq_3)
qed

lemma count_byte:
  assumes "r < e" 
  shows "(if e - r < 0x80 then int2byte (e - r) else Inr [0x80]) = Inr [word_of_int (min 0x80 (e - r))]"
    and "byte2int [word_of_int (min 0x80 (e - r)) :: byte] = Inr (min 0x80 (e - r))"
proof -
  define k where "k = e - r"
  have k: "0 < k" using assms by (simp add: k_def)
  show "(if e - r < 0x80 then int2byte (e - r) else Inr [0x80]) = Inr [word_of_int (min 0x80 (e - r))]"
    unfolding k_def [symmetric] using k by (auto simp: int2byte_def min_def)
  have "0 \<le> min 0x80 k" "min 0x80 k < 256" using k by simp_all
  then have "uint (word_of_int (min 0x80 k) :: byte) = min 0x80 k"
    by (simp add: uint_word_of_int take_bit_eq_mod)
  then show "byte2int [word_of_int (min 0x80 (e - r)) :: byte] = Inr (min 0x80 (e - r))"
    unfolding k_def [symmetric] by (simp add: byte2int_def)
qed

lemma FIRST_3: "(if ext then BUX_FIRST else BUL_FIRST) + 1 = 3"
  by (simp add: BUX_FIRST_def BUL_FIRST_def)

lemma fetch_step:
  assumes "0 \<le> r" and "r < e" and "r < 0x1000000"
    and "send (to_bytes_big r 3 @ [word_of_int (min 0x80 (e - r))]) = Inr ret"
  shows "read_backup_fetch send ext e r bakmem
         = read_backup_fetch send ext e (r + min 0x80 (e - r)) (bakmem @ drop 3 ret)"
proof -
  note ab = addr_bytes [OF assms(1) assms(3)]
  have req: "([word_of_int (drop_bit 16 r)] @ [word_of_int (drop_bit 8 r AND 0xFF)] @ [word_of_int (r AND 0xFF)])
             @ [word_of_int (min 0x80 (e - r))]
             = to_bytes_big r 3 @ [word_of_int (min 0x80 (e - r))]"
    using ab(4) by simp
  show ?thesis
    apply (subst read_backup_fetch.simps)
    apply (simp only: assms(2) if_True ab(1) ab(2) ab(3) sum.case count_byte [OF assms(2)] req assms(4) FIRST_3)
    done
qed

lemma fetch_done: "\<not> r < e \<Longrightarrow> read_backup_fetch send ext e r bakmem = Inr bakmem"
  by (subst read_backup_fetch.simps) simp

end
